theory Spec2Isabelle
  imports Complex_Main "HOL-Library.Multiset"
begin

section \<open>Data model\<close>

text \<open>
  The backend keeps three Sequelize models: \<open>Transaction\<close>, \<open>Category\<close> and
  \<open>AISuggestion\<close>. Each is a record here, with the columns of its
  \<open>sequelize.define\<close> call. Integer columns are \<open>int\<close>, the \<open>DATE\<close> columns are the
  millisecond timestamps a JavaScript \<open>Date\<close> holds, and the \<open>FLOAT\<close> amount is the
  value of a finite double, a real number; the additions of the code round (section
  Numbers). A row holds the number that a query gives back: the rounding of the
  database when it stores an amount is not modelled.
  \<open>Transaction.categoryId\<close> is declared with \<open>references\<close> to \<open>categories.id\<close> and
  no \<open>onDelete\<close>, and \<open>server.js\<close> syncs that schema: the database refuses a
  transaction whose category does not exist and the deletion of a category that a
  transaction references. Users are not part of the store: every user id is taken to
  exist.
\<close>

datatype kind = Income | Expense

record transaction =
  t_id :: int
  t_userId :: int
  t_amount :: real
  t_description :: "string option"
  t_date :: int
  t_categoryId :: int
  t_type :: kind

record category =
  c_id :: int
  c_name :: string
  c_userId :: "int option"

record suggestion =
  s_id :: int
  s_userId :: int
  s_prompt :: string
  s_response :: string
  s_createdAt :: int

text \<open>
  The store is the three tables in insertion order, with the next value of each
  auto-increment key.
\<close>

record store =
  transactions :: "transaction list"
  categories :: "category list"
  aisuggestions :: "suggestion list"
  next_t_id :: int
  next_c_id :: int
  next_s_id :: int

section \<open>Responses\<close>

text \<open>
  A handler answers with a status and a JSON body. The failing answers are the values
  of \<open>error\<close>: 400, 403, 404 and 500 with the \<open>error\<close> field of the body. The text is
  either a literal of the handler or the \<open>err.message\<close> of an exception of the store,
  which is kept symbolic. The store throws where a model declares it: a missing
  \<open>allowNull: false\<close> column, a value outside the enum, a violated foreign key. A lost
  connection and the like are not modelled.
\<close>

datatype store_error = NotNull string | NotInEnum string | ForeignKey string

datatype message = Text string | ErrMessage store_error

datatype error =
    BadRequest message
  | Forbidden message
  | NotFound message
  | ServerError message

section \<open>Transactions (transactionController.js)\<close>

text \<open>
  The body of a transaction request, with the fields of the model; other keys are not
  modelled. A field that the JSON body does not carry is \<open>None\<close>. For \<open>userId\<close>, here
  and in the query strings of the other handlers, \<open>None\<close> stands for every value the
  test \<open>!userId\<close> rejects, and \<open>Some u\<close> for a value that the store reads as the
  integer \<open>u\<close>. The ids of the path (\<open>req.params.id\<close>) are the integers the store
  reads them as.
\<close>

record tx_body =
  b_userId :: "int option"
  b_type :: "string option"
  b_amount :: "real option"
  b_description :: "string option"
  b_date :: "int option"
  b_categoryId :: "int option"

definition kind_of :: "string \<Rightarrow> kind option" where
  "kind_of s = (if s = ''income'' then Some Income
                else if s = ''expense'' then Some Expense else None)"

text \<open>\<open>Transaction.create(req.body)\<close> after the handler has checked owner and type:
  the \<open>allowNull: false\<close> columns must be present and the category must exist; the
  row gets the next id.\<close>

definition Transaction_create ::
  "store \<Rightarrow> int \<Rightarrow> kind \<Rightarrow> tx_body \<Rightarrow> store_error + (transaction \<times> store)" where
  "Transaction_create st u k body =
     (case b_amount body of
        None \<Rightarrow> Inl (NotNull ''amount'')
      | Some a \<Rightarrow>
        (case b_date body of
           None \<Rightarrow> Inl (NotNull ''date'')
         | Some d \<Rightarrow>
           (case b_categoryId body of
              None \<Rightarrow> Inl (NotNull ''categoryId'')
            | Some c \<Rightarrow>
              if c \<notin> set (map c_id (categories st)) then Inl (ForeignKey ''categoryId'')
              else
                (let t = \<lparr> t_id = next_t_id st, t_userId = u, t_amount = a,
                           t_description = b_description body, t_date = d,
                           t_categoryId = c, t_type = k \<rparr>
                 in Inr (t, st\<lparr> transactions := transactions st @ [t],
                                 next_t_id := next_t_id st + 1 \<rparr>)))))"

definition createTransaction :: "store \<Rightarrow> tx_body \<Rightarrow> (error + transaction) \<times> store" where
  \<open>createTransaction st body =
     (case b_userId body of
        None \<Rightarrow> (Inl (BadRequest (Text ''userId is required in the request body.'')), st)
      | Some u \<Rightarrow>
        (case Option.bind (b_type body) kind_of of
           None \<Rightarrow>
             (Inl (BadRequest
                (Text ''Transaction type must be either "income" or "expense".'')), st)
         | Some k \<Rightarrow>
           (case Transaction_create st u k body of
              Inl e \<Rightarrow> (Inl (BadRequest (ErrMessage e)), st)
            | Inr (t, st') \<Rightarrow> (Inr t, st'))))\<close>

definition getTransactions :: "store \<Rightarrow> int option \<Rightarrow> error + transaction list" where
  "getTransactions st userId =
     (case userId of
        None \<Rightarrow> Inl (BadRequest (Text ''A userId query parameter is required.''))
      | Some u \<Rightarrow> Inr (filter (\<lambda>t. t_userId t = u) (transactions st)))"

text \<open>\<open>transaction.update(req.body)\<close>: every field the body carries replaces the
  stored one; the primary key is not assignable; a \<open>type\<close> outside the enum and a
  category that does not exist are refused.\<close>

definition instance_update ::
  "store \<Rightarrow> transaction \<Rightarrow> int \<Rightarrow> tx_body \<Rightarrow> store_error + transaction" where
  "instance_update st t u body =
     (case (case b_type body of None \<Rightarrow> Some (t_type t) | Some s \<Rightarrow> kind_of s) of
        None \<Rightarrow> Inl (NotInEnum ''type'')
      | Some k \<Rightarrow>
        if (case b_categoryId body of
              None \<Rightarrow> False | Some c \<Rightarrow> c \<notin> set (map c_id (categories st)))
        then Inl (ForeignKey ''categoryId'')
        else
        Inr (t\<lparr> t_userId := u,
                t_type := k,
                t_amount := (case b_amount body of None \<Rightarrow> t_amount t | Some a \<Rightarrow> a),
                t_description :=
                  (case b_description body of None \<Rightarrow> t_description t | Some s \<Rightarrow> Some s),
                t_date := (case b_date body of None \<Rightarrow> t_date t | Some d \<Rightarrow> d),
                t_categoryId :=
                  (case b_categoryId body of None \<Rightarrow> t_categoryId t | Some c \<Rightarrow> c) \<rparr>))"

definition updateTransaction ::
  "store \<Rightarrow> int \<Rightarrow> tx_body \<Rightarrow> (error + transaction) \<times> store" where
  "updateTransaction st transactionId body =
     (case b_userId body of
        None \<Rightarrow>
          (Inl (BadRequest
             (Text ''userId is required in the request body to verify ownership.'')), st)
      | Some u \<Rightarrow>
        (case find (\<lambda>t. t_id t = transactionId \<and> t_userId t = u) (transactions st) of
           None \<Rightarrow>
             (Inl (NotFound
                (Text ''Transaction not found or you do not have permission to edit it.'')), st)
         | Some t \<Rightarrow>
           (case instance_update st t u body of
              Inl e \<Rightarrow> (Inl (BadRequest (ErrMessage e)), st)
            | Inr t' \<Rightarrow>
                (Inr t',
                 st\<lparr> transactions :=
                       map (\<lambda>x. if t_id x = t_id t then t' else x) (transactions st) \<rparr>))))"

definition deleteTransaction :: "store \<Rightarrow> int \<Rightarrow> int option \<Rightarrow> (error + unit) \<times> store" where
  "deleteTransaction st transactionId userId =
     (case userId of
        None \<Rightarrow>
          (Inl (BadRequest
             (Text ''A userId query parameter is required to verify ownership.'')), st)
      | Some u \<Rightarrow>
        (case find (\<lambda>t. t_id t = transactionId \<and> t_userId t = u) (transactions st) of
           None \<Rightarrow>
             (Inl (NotFound
                (Text ''Transaction not found or you do not have permission to delete it.'')), st)
         | Some t \<Rightarrow>
             (Inr (), st\<lparr> transactions := filter (\<lambda>x. t_id x \<noteq> t_id t) (transactions st) \<rparr>)))"

section \<open>Categories (categoryController.js)\<close>


text \<open>The body of \<open>createCategory\<close>: \<open>name\<close> is the string of the body, if any (the
  empty string is falsy); \<open>userId\<close> is read as in \<open>tx_body\<close>.\<close>

definition createCategory ::
  "store \<Rightarrow> string option \<Rightarrow> int option \<Rightarrow> (error + category) \<times> store" where
  "createCategory st name userId =
     (case (name, userId) of
        (Some n, Some u) \<Rightarrow>
          (if n = [] then (Inl (BadRequest (Text ''Both name and userId are required.'')), st)
           else
             (let c = \<lparr> c_id = next_c_id st, c_name = n, c_userId = Some u \<rparr>
              in (Inr c, st\<lparr> categories := categories st @ [c],
                               next_c_id := next_c_id st + 1 \<rparr>)))
      | _ \<Rightarrow> (Inl (BadRequest (Text ''Both name and userId are required.'')), st))"

text \<open>
  \<open>deleteCategory\<close> reads \<open>userId\<close> from the query string and compares
  \<open>category.userId !== parseInt(userId)\<close>. \<open>parseInt\<close> without a radix skips leading
  white space, reads a sign, takes \<open>0x\<close> as the mark of base 16, and reads the longest
  run of digits; with no digit the result is \<open>NaN\<close>, here \<open>None\<close>. (The result is an
  integer of any size here; a double rounds beyond 2^53.) \<open>category.destroy()\<close>
  throws when a transaction references the category, and the \<open>catch\<close> answers 500.
\<close>

definition is_space :: "char \<Rightarrow> bool" where
  "is_space c = (c \<in> set [CHR '' '', CHR 0x09, CHR 0x0A, CHR 0x0B, CHR 0x0C, CHR 0x0D])"

definition digit_val :: "char \<Rightarrow> nat" where
  "digit_val c =
     (let n = (of_char c :: nat)
      in if 48 \<le> n \<and> n \<le> 57 then n - 48
         else if 97 \<le> n \<and> n \<le> 122 then n - 87
         else if 65 \<le> n \<and> n \<le> 90 then n - 55
         else 36)"

definition parseInt :: "string \<Rightarrow> int option" where
  "parseInt s =
     (let s1 = dropWhile is_space s;
          neg = (take 1 s1 = ''-'');
          s2 = (if take 1 s1 = ''-'' \<or> take 1 s1 = ''+'' then drop 1 s1 else s1);
          hex = (take 2 s2 = ''0x'' \<or> take 2 s2 = ''0X'');
          radix = (if hex then 16 else 10);
          s3 = (if hex then drop 2 s2 else s2);
          ds = takeWhile (\<lambda>c. digit_val c < radix) s3;
          n = int (foldl (\<lambda>a c. a * radix + digit_val c) 0 ds)
      in if ds = [] then None else Some (if neg then - n else n))"

text \<open>\<open>a !== b\<close> for a column that is \<open>null\<close> or a number, and a number that may be
  \<open>NaN\<close>: only two equal numbers are not different.\<close>

fun strict_ne :: "int option \<Rightarrow> int option \<Rightarrow> bool" where
  "strict_ne (Some a) (Some b) = (a \<noteq> b)"
| "strict_ne _ _ = True"

definition deleteCategory ::
  "store \<Rightarrow> int \<Rightarrow> string option \<Rightarrow> (error + unit) \<times> store" where
  "deleteCategory st categoryId userId =
     (case userId of
        None \<Rightarrow>
          (Inl (BadRequest
             (Text ''A userId query parameter is required to verify ownership.'')), st)
      | Some uid \<Rightarrow>
        if uid = [] then
          (Inl (BadRequest
             (Text ''A userId query parameter is required to verify ownership.'')), st)
        else
          (case find (\<lambda>c. c_id c = categoryId) (categories st) of
             None \<Rightarrow> (Inl (NotFound (Text ''Category not found.'')), st)
           | Some c \<Rightarrow>
               if strict_ne (c_userId c) (parseInt uid) then
                 (Inl (Forbidden
                    (Text ''You do not have permission to delete this category.'')), st)
               else if c_id c \<in> set (map t_categoryId (transactions st)) then
                 (Inl (ServerError (ErrMessage (ForeignKey ''categoryId''))), st)
               else
                 (Inr (),
                  st\<lparr> categories := filter (\<lambda>x. c_id x \<noteq> c_id c) (categories st) \<rparr>)))"

section \<open>Dates\<close>

text \<open>
  A \<open>Date\<close> is its time value, the milliseconds since 1970-01-01T00:00:00Z. The
  calendar fields follow ECMAScript: \<open>MakeDay\<close> gives the day number of a year, a
  month counted from 0 (any integer: 12 is January of the next year) and a day of the
  month (any integer); \<open>civil\<close> is its inverse on day numbers. The local time zone of
  the server is a fixed offset \<open>tz\<close>, in minutes east of UTC, so daylight saving
  changes are not modelled.
\<close>

definition msPerDay :: int where
  "msPerDay = 86400000"

definition MakeDay :: "int \<Rightarrow> int \<Rightarrow> int \<Rightarrow> int" where
  "MakeDay year month dt =
     (let ym = year + month div 12;
          mn = month mod 12;
          y = (if mn < 2 then ym - 1 else ym);
          era = y div 400;
          yoe = y mod 400;
          mp = (mn + 10) mod 12;
          doy = (153 * mp + 2) div 5;
          doe = yoe * 365 + yoe div 4 - yoe div 100 + doy
      in era * 146097 + doe - 719468 + dt - 1)"

definition civil :: "int \<Rightarrow> int \<times> int \<times> int" where
  "civil day =
     (let z = day + 719468;
          era = z div 146097;
          doe = z mod 146097;
          yoe = (doe - doe div 1460 + doe div 36524 - doe div 146096) div 365;
          doy = doe - (365 * yoe + yoe div 4 - yoe div 100);
          mp = (5 * doy + 2) div 153;
          d = doy - (153 * mp + 2) div 5 + 1;
          mn = (mp + 2) mod 12;
          y = yoe + era * 400
      in (if mn < 2 then y + 1 else y, mn, d))"

definition LocalTime :: "int \<Rightarrow> int \<Rightarrow> int" where
  "LocalTime tz t = t + tz * 60000"

definition UTC :: "int \<Rightarrow> int \<Rightarrow> int" where
  "UTC tz t = t - tz * 60000"

definition getFullYear :: "int \<Rightarrow> int \<Rightarrow> int" where
  "getFullYear tz t = fst (civil (LocalTime tz t div msPerDay))"

definition getMonth :: "int \<Rightarrow> int \<Rightarrow> int" where
  "getMonth tz t = fst (snd (civil (LocalTime tz t div msPerDay)))"

definition getDate :: "int \<Rightarrow> int \<Rightarrow> int" where
  "getDate tz t = snd (snd (civil (LocalTime tz t div msPerDay)))"

definition setMonth :: "int \<Rightarrow> int \<Rightarrow> int \<Rightarrow> int" where
  "setMonth tz t month =
     UTC tz (MakeDay (getFullYear tz t) month (getDate tz t) * msPerDay
             + LocalTime tz t mod msPerDay)"

text \<open>\<open>new Date(year, month, 1)\<close>: local midnight.\<close>

definition Date_local :: "int \<Rightarrow> int \<Rightarrow> int \<Rightarrow> int \<Rightarrow> int" where
  "Date_local tz year month dt = UTC tz (MakeDay year month dt * msPerDay)"

text \<open>A month string \<open>YYYY-MM\<close> is the pair of its year and its month (1 to 12).
  \<open>new Date(`${month}-01T00:00:00.000Z`)\<close> is midnight UTC on its first day.\<close>

type_synonym month = "int \<times> int"

definition Date_month_utc :: "month \<Rightarrow> int" where
  "Date_month_utc month = MakeDay (fst month) (snd month - 1) 1 * msPerDay"

text \<open>The first seven characters of \<open>toISOString()\<close>, as a month; the ISO form has
  a four-digit year only for the years 0 to 9999.\<close>

definition iso_month :: "int \<Rightarrow> month option" where
  "iso_month t =
     (case civil (t div msPerDay) of
        (y, mn, d) \<Rightarrow> if 0 \<le> y \<and> y \<le> 9999 then Some (y, mn + 1) else None)"

text \<open>
  Notions for the proofs about the calendar. A year here runs from 1 March, so that
  the leap day is its last day: \<open>march_year\<close> is the year of a month in that count,
  \<open>era_start\<close> the day number of its 1 March, \<open>year_start\<close> and \<open>year_end\<close> the first and
  the last day of the \<open>k\<close>-th year within its 400 years, \<open>doy0\<close> the first day of a
  month within the year (March is month 0), \<open>month_days\<close> the length of a month and
  \<open>yoe_of\<close> the year that \<open>civil\<close> computes for a day of the 400 years.
\<close>

definition year_start :: "int \<Rightarrow> int" where
  "year_start k = 365 * k + k div 4 - k div 100"

definition year_end :: "int \<Rightarrow> int" where
  "year_end k = (if k = 399 then 146096 else year_start (k + 1) - 1)"

definition yoe_of :: "int \<Rightarrow> int" where
  "yoe_of doe = (doe - doe div 1460 + doe div 36524 - doe div 146096) div 365"

definition doy0 :: "int \<Rightarrow> int" where
  "doy0 mp = (153 * mp + 2) div 5"

definition era_start :: "int \<Rightarrow> int" where
  "era_start yy = (yy div 400) * 146097 + year_start (yy mod 400) - 719468"

definition month_days :: "int \<Rightarrow> int \<Rightarrow> int" where
  "month_days yy mp =
     (if mp = 11 then year_end (yy mod 400) - year_start (yy mod 400) + 1 - doy0 11
      else doy0 (mp + 1) - doy0 mp)"

definition march_year :: "int \<Rightarrow> int \<Rightarrow> int" where
  "march_year y mn = (if mn < 2 then y - 1 else y)"

section \<open>Numbers\<close>

text \<open>
  A JavaScript number is a double. An amount is the value of a finite double, and
  \<open>+\<close> and \<open>-\<close> give the double nearest to the exact result, a tie going to the even
  mantissa: \<open>to_double\<close> rounds a real to 53 bits at the exponent of its binade, and to
  multiples of 2^-1074 below 2^-1022. The exponent has no upper end here: overflow to
  \<open>Infinity\<close> from 2^1024 on, \<open>NaN\<close> and the sign of zero are not modelled.
  \<open>expo_up\<close> is the exponent of a number from 1 on, \<open>expo_down\<close> that of a number
  below 1, not lower than the given bound.
\<close>

function expo_up :: "real \<Rightarrow> int" where
  "expo_up x = (if 2 \<le> x then expo_up (x / 2) + 1 else 0)"
  by pat_completeness auto
termination
proof (relation "measure (\<lambda>x. nat \<lceil>x\<rceil>)")
  show "wf (measure (\<lambda>x::real. nat \<lceil>x\<rceil>))"
    by simp
next
  fix x :: real
  assume "2 \<le> x"
  then have "\<lceil>x / 2\<rceil> < \<lceil>x\<rceil>" and "0 < \<lceil>x\<rceil>"
    by linarith+
  then show "(x / 2, x) \<in> measure (\<lambda>x. nat \<lceil>x\<rceil>)"
    by simp
qed

declare expo_up.simps [simp del]

fun expo_down :: "nat \<Rightarrow> real \<Rightarrow> int" where
  "expo_down 0 x = 0"
| "expo_down (Suc n) x = (if x < 1 then expo_down n (2 * x) - 1 else 0)"

definition ulp_exp :: "real \<Rightarrow> int" where
  "ulp_exp x = (if 1 \<le> \<bar>x\<bar> then expo_up \<bar>x\<bar> else expo_down 1022 \<bar>x\<bar>) - 52"

definition pow2 :: "int \<Rightarrow> real" where
  "pow2 e = (if 0 \<le> e then 2 ^ nat e else 1 / 2 ^ nat (- e))"

definition round_even :: "real \<Rightarrow> int" where
  "round_even q =
     (let f = \<lfloor>q\<rfloor>; r = q - of_int f
      in if r < 1 / 2 then f else if 1 / 2 < r then f + 1 else if even f then f else f + 1)"

definition to_double :: "real \<Rightarrow> real" where
  "to_double x =
     (if x = 0 then 0 else of_int (round_even (x / pow2 (ulp_exp x))) * pow2 (ulp_exp x))"

definition js_add :: "real \<Rightarrow> real \<Rightarrow> real" where
  "js_add x y = to_double (x + y)"

definition js_sub :: "real \<Rightarrow> real \<Rightarrow> real" where
  "js_sub x y = to_double (x - y)"

text \<open>Amounts that are whole numbers and small enough that no sum of them rounds.\<close>

definition is_whole :: "real \<Rightarrow> bool" where
  "is_whole x = (of_int \<lfloor>x\<rfloor> = x)"

definition whole_amounts :: "transaction list \<Rightarrow> bool" where
  "whole_amounts ts =
     (list_all (\<lambda>t. is_whole (t_amount t)) ts \<and>
      sum_list (map (\<lambda>t. \<bar>t_amount t\<bar>) ts) < 2 ^ 53)"

section \<open>Summaries (summaryService.js, transactionController.js)\<close>

record summary =
  income :: real
  expense :: real
  balance :: real

text \<open>The query of \<open>monthlySummary\<close>: the user's rows with
  \<open>startDate \<le> date < endDate\<close>.\<close>

definition findAll_range :: "store \<Rightarrow> int \<Rightarrow> int \<Rightarrow> int \<Rightarrow> transaction list" where
  "findAll_range st userId startDate endDate =
     filter (\<lambda>t. t_userId t = userId \<and> startDate \<le> t_date t \<and> t_date t < endDate)
       (transactions st)"

text \<open>The two \<open>filter(...).reduce((sum, t) => sum + t.amount, 0)\<close> sums and the
  returned object.\<close>

definition totals :: "transaction list \<Rightarrow> summary" where
  "totals list =
     (let income = foldl (\<lambda>sum t. js_add sum (t_amount t)) 0
                     (filter (\<lambda>t. t_type t = Income) list);
          expense = foldl (\<lambda>sum t. js_add sum (t_amount t)) 0
                      (filter (\<lambda>t. t_type t = Expense) list)
      in \<lparr> income = income, expense = expense, balance = js_sub income expense \<rparr>)"

text \<open>\<open>monthlySummary\<close> from the point where its two dates are known.\<close>

definition summaryOver :: "store \<Rightarrow> int \<Rightarrow> int \<Rightarrow> int \<Rightarrow> summary" where
  "summaryOver st userId startDate endDate = totals (findAll_range st userId startDate endDate)"

definition monthlySummary :: "int \<Rightarrow> store \<Rightarrow> int \<Rightarrow> month \<Rightarrow> summary" where
  "monthlySummary tz st userId month =
     (let startDate = Date_month_utc month;
          endDate = setMonth tz startDate (getMonth tz startDate + 1)
      in summaryOver st userId startDate endDate)"


text \<open>\<open>getMonthlySummary\<close> of the controller: the month so far, with \<open>Op.between\<close>,
  which keeps both ends. \<open>now\<close> is the clock when the request is served.\<close>

record month_so_far =
  m_income :: real
  m_expenses :: real
  m_balance :: real

definition findAll_between :: "store \<Rightarrow> int \<Rightarrow> int \<Rightarrow> int \<Rightarrow> transaction list" where
  "findAll_between st userId lo hi =
     filter (\<lambda>t. t_userId t = userId \<and> lo \<le> t_date t \<and> t_date t \<le> hi) (transactions st)"

definition getMonthlySummary :: "int \<Rightarrow> int \<Rightarrow> store \<Rightarrow> int option \<Rightarrow> error + month_so_far" where
  "getMonthlySummary tz now st userId =
     (case userId of
        None \<Rightarrow> Inl (BadRequest (Text ''userId is required in query params.''))
      | Some u \<Rightarrow>
        (let startOfThisMonth = Date_local tz (getFullYear tz now) (getMonth tz now) 1;
             endOfToday = now;
             txs = findAll_between st u startOfThisMonth endOfToday;
             (income, expenses) =
               foldl (\<lambda>(income, expenses) tx.
                        if t_type tx = Income then (js_add income (t_amount tx), expenses)
                        else (income, js_add expenses (t_amount tx)))
                     (0, 0) txs
         in Inr \<lparr> m_income = income, m_expenses = expenses,
                  m_balance = js_sub income expenses \<rparr>))"

section \<open>Suggestions (aiService.js, suggestionController.js)\<close>

text \<open>
  The provider is a parameter: what \<open>axios.post\<close> meets for a prompt. Either the
  request fails in transport, or a response arrives with a status and a body. Of the
  body only \<open>data.choices\<close> is read: \<open>None\<close> when it is missing, otherwise the list of
  the choices, each the string at \<open>message.content\<close> or \<open>None\<close> when there is none.
\<close>

datatype llm_reply = NetworkError | HttpResponse nat "string option list option"

datatype exn = Error string

definition trim :: "string \<Rightarrow> string" where
  "trim s = rev (dropWhile is_space (rev (dropWhile is_space s)))"

definition callLLM :: "(string \<Rightarrow> llm_reply) \<Rightarrow> string \<Rightarrow> exn + string" where
  "callLLM provider prompt =
     (case provider prompt of
        NetworkError \<Rightarrow> Inl (Error ''LLM provider error'')
      | HttpResponse status choices \<Rightarrow>
          if \<not> (200 \<le> status \<and> status < 300) then Inl (Error ''LLM provider error'')
          else
            (case choices of
               Some (Some content # _) \<Rightarrow> Inr (trim content)
             | _ \<Rightarrow> Inl (Error ''LLM provider error'')))"

definition list_suggestions :: "store \<Rightarrow> int \<Rightarrow> suggestion list" where
  "list_suggestions st userId =
     sort_key (\<lambda>s. - s_createdAt s) (filter (\<lambda>s. s_userId s = userId) (aisuggestions st))"

definition generateAndSave ::
  "(string \<Rightarrow> llm_reply) \<Rightarrow> int \<Rightarrow> store \<Rightarrow> int \<Rightarrow> string \<Rightarrow> (exn + suggestion) \<times> store" where
  "generateAndSave provider now st userId prompt =
     (case callLLM provider prompt of
        Inl e \<Rightarrow> (Inl e, st)
      | Inr response \<Rightarrow>
          (let record = \<lparr> s_id = next_s_id st, s_userId = userId, s_prompt = prompt,
                          s_response = response, s_createdAt = now \<rparr>
           in (Inr record, st\<lparr> aisuggestions := aisuggestions st @ [record],
                                next_s_id := next_s_id st + 1 \<rparr>)))"

definition getSuggestions :: "store \<Rightarrow> int option \<Rightarrow> error + suggestion list" where
  "getSuggestions st userId =
     (case userId of
        None \<Rightarrow> Inl (BadRequest (Text ''userId query param required''))
      | Some u \<Rightarrow> Inr (list_suggestions st u))"

definition generateAndSaveSuggestion ::
  "(string \<Rightarrow> llm_reply) \<Rightarrow> int \<Rightarrow> store \<Rightarrow> int option \<Rightarrow> string option \<Rightarrow>
     (error + suggestion) \<times> store" where
  "generateAndSaveSuggestion provider now st userId prompt =
     (case prompt of
        None \<Rightarrow> (Inl (BadRequest (Text ''Prompt is required'')), st)
      | Some p \<Rightarrow>
        if p = [] then (Inl (BadRequest (Text ''Prompt is required'')), st)
        else
          (case userId of
             None \<Rightarrow> (Inl (BadRequest (Text ''User ID is required'')), st)
           | Some u \<Rightarrow>
             (case generateAndSave provider now st u p of
                (Inl (Error m), st') \<Rightarrow>
                  (Inl (ServerError
                     (Text (if m = [] then ''Failed to fetch/save AI suggestion'' else m))), st')
              | (Inr record, st') \<Rightarrow> (Inr record, st'))))"

text \<open>The three ways a provider call fails, in the words of the specification:
  transport failure, a response that is not a success, a payload without the text.\<close>

definition provider_failed :: "llm_reply \<Rightarrow> bool" where
  "provider_failed r =
     (case r of
        NetworkError \<Rightarrow> True
      | HttpResponse status choices \<Rightarrow>
          status < 200 \<or> 300 \<le> status \<or>
          (case choices of None \<Rightarrow> True | Some [] \<Rightarrow> True | Some (c # _) \<Rightarrow> c = None))"

section \<open>The report page (ReportsComponent.loadData)\<close>










text \<open>\<open>getCategoryName\<close> of the transactions page, which lists transactions and
  is no breakdown: it shows \<open>Unknown\<close> for an id without a category.\<close>

definition getCategoryName :: "category list \<Rightarrow> int option \<Rightarrow> string" where
  "getCategoryName cats ident =
     (case ident of
        None \<Rightarrow> ''N/A''
      | Some i \<Rightarrow>
        (case find (\<lambda>c. c_id c = i) cats of
           Some cat \<Rightarrow> c_name cat
         | None \<Rightarrow> ''Unknown''))"


section \<open>Sample data\<close>

text \<open>
  User 1 has the three transactions of the specification's example; user 2 has one,
  dated at the first instant of July 2025. \<open>utc_date\<close> is midnight UTC of a day.
\<close>

definition utc_date :: "int \<Rightarrow> int \<Rightarrow> int \<Rightarrow> int" where
  "utc_date y m d = MakeDay y (m - 1) d * msPerDay"

definition demo_store :: store where
  "demo_store =
     \<lparr> transactions =
         [\<lparr> t_id = 1, t_userId = 1, t_amount = 1000, t_description = None,
            t_date = utc_date 2025 7 3, t_categoryId = 1, t_type = Income \<rparr>,
          \<lparr> t_id = 2, t_userId = 1, t_amount = 150, t_description = Some ''food'',
            t_date = utc_date 2025 7 10, t_categoryId = 2, t_type = Expense \<rparr>,
          \<lparr> t_id = 3, t_userId = 1, t_amount = 40, t_description = None,
            t_date = utc_date 2025 8 1, t_categoryId = 2, t_type = Expense \<rparr>,
          \<lparr> t_id = 4, t_userId = 2, t_amount = 500, t_description = None,
            t_date = utc_date 2025 7 1, t_categoryId = 1, t_type = Income \<rparr>],
       categories =
         [\<lparr> c_id = 1, c_name = ''Salary'', c_userId = None \<rparr>,
          \<lparr> c_id = 2, c_name = ''Food'', c_userId = Some 1 \<rparr>,
          \<lparr> c_id = 3, c_name = ''Rent'', c_userId = Some 2 \<rparr>],
       aisuggestions = [],
       next_t_id = 5, next_c_id = 4, next_s_id = 1 \<rparr>"

definition demo_body :: tx_body where
  "demo_body = \<lparr> b_userId = Some 2, b_type = Some ''expense'', b_amount = Some 5,
                 b_description = None, b_date = Some (utc_date 2025 7 20),
                 b_categoryId = Some 3 \<rparr>"

text \<open>A request of user 2 with a negative amount.\<close>

definition negative_body :: tx_body where
  "negative_body = \<lparr> b_userId = Some 2, b_type = Some ''expense'', b_amount = Some (- 5),
                     b_description = None, b_date = Some (utc_date 2025 7 20), b_categoryId = Some 3 \<rparr>"







section \<open>Ownership of transactions\<close>

lemma find_no_match: "(\<forall>x \<in> set xs. \<not> P x) \<Longrightarrow> find P xs = None"
  by (induction xs) auto

text \<open>
  C1. \<open>getTransactions\<close> for user \<open>B\<close> answers exactly the stored transactions whose
  \<open>userId\<close> is \<open>B\<close>, in store order; a transaction of another user \<open>A\<close> is never among
  them.
\<close>

theorem getTransactions_owner_only:
  "getTransactions st (Some B) = Inr (filter (\<lambda>t. t_userId t = B) (transactions st)) \<and>
   (\<forall>rows t A. getTransactions st (Some B) = Inr rows \<and> t_userId t = A \<and> A \<noteq> B \<longrightarrow>
      t \<notin> set rows) \<and>
   (\<forall>rows t. getTransactions st (Some B) = Inr rows \<longrightarrow>
      (t \<in> set rows \<longleftrightarrow> t \<in> set (transactions st) \<and> t_userId t = B))"
  by (auto simp: getTransactions_def)

theorem getTransactions_owner_only_witness:
  "getTransactions demo_store (Some 2) = Inr [transactions demo_store ! 3] \<and>
   t_userId (transactions demo_store ! 0) = 1 \<and>
   transactions demo_store ! 0 \<notin> set [transactions demo_store ! 3]"
  using getTransactions_owner_only [of demo_store 2]
  by (simp add: demo_store_def)

text \<open>
  C3. When no stored transaction has both the requested id and the caller's \<open>userId\<close>
  (the id is absent, or its row belongs to someone else), \<open>updateTransaction\<close> gives
  one and the same 404 answer and the store is what it was.
\<close>

theorem updateTransaction_not_found_or_forbidden:
  assumes "b_userId body = Some B"
    and "\<forall>t \<in> set (transactions st). t_id t = tid \<longrightarrow> t_userId t \<noteq> B"
  shows "updateTransaction st tid body =
           (Inl (NotFound
              (Text ''Transaction not found or you do not have permission to edit it.'')), st)"
proof -
  have "find (\<lambda>t. t_id t = tid \<and> t_userId t = B) (transactions st) = None"
    using assms(2) by (intro find_no_match) auto
  with assms(1) show ?thesis
    by (simp add: updateTransaction_def)
qed

theorem updateTransaction_not_found_or_forbidden_witness:
  "updateTransaction demo_store 1 demo_body =
     (Inl (NotFound
        (Text ''Transaction not found or you do not have permission to edit it.'')), demo_store) \<and>
   updateTransaction demo_store 7 demo_body =
     (Inl (NotFound
        (Text ''Transaction not found or you do not have permission to edit it.'')), demo_store) \<and>
   t_userId (transactions demo_store ! 0) = 1 \<and> t_id (transactions demo_store ! 0) = 1"
  using updateTransaction_not_found_or_forbidden [of demo_body 2 demo_store 1]
        updateTransaction_not_found_or_forbidden [of demo_body 2 demo_store 7]
  by (simp add: demo_store_def demo_body_def)

section \<open>Ownership of categories\<close>

lemma find_unique:
  "distinct (map f xs) \<Longrightarrow> x \<in> set xs \<Longrightarrow> find (\<lambda>y. f y = f x) xs = Some x"
  by (induction xs) (auto simp: image_iff)

text \<open>
  C10. A global category (\<open>userId\<close> null) cannot be deleted through \<open>deleteCategory\<close>:
  whatever non-empty \<open>userId\<close> the query carries, \<open>null !== parseInt(userId)\<close> holds, the
  answer is 403 and the store, the category included, is unchanged.
\<close>

theorem deleteCategory_global_forbidden:
  assumes "uid \<noteq> []"
    and "distinct (map c_id (categories st))"
    and "c \<in> set (categories st)"
    and "c_userId c = None"
  shows "deleteCategory st (c_id c) (Some uid) =
           (Inl (Forbidden (Text ''You do not have permission to delete this category.'')), st)"
proof -
  have "find (\<lambda>x. c_id x = c_id c) (categories st) = Some c"
    using assms(2,3) by (rule find_unique)
  with assms(1,4) show ?thesis
    by (simp add: deleteCategory_def)
qed

theorem deleteCategory_global_forbidden_witness:
  "deleteCategory demo_store 1 (Some ''2'') =
     (Inl (Forbidden (Text ''You do not have permission to delete this category.'')), demo_store) \<and>
   c_userId (categories demo_store ! 0) = None \<and> c_id (categories demo_store ! 0) = 1"
  using deleteCategory_global_forbidden [of "''2''" demo_store "categories demo_store ! 0"]
  by (simp add: demo_store_def)

section \<open>Provider failure\<close>

lemma callLLM_failed:
  "provider_failed (provider prompt) \<Longrightarrow> callLLM provider prompt = Inl (Error ''LLM provider error'')"
  by (auto simp: provider_failed_def callLLM_def split: llm_reply.splits option.splits list.splits)

lemma callLLM_ok:
  "\<not> provider_failed (provider prompt) \<Longrightarrow> \<exists>r. callLLM provider prompt = Inr r"
  by (auto simp: provider_failed_def callLLM_def split: llm_reply.splits option.splits list.splits)

text \<open>
  C4. When the provider call fails (no response, a status outside 200 to 299, or a
  body without the text), \<open>generateAndSave\<close> throws \<open>LLM provider error\<close> before
  any row is created: the store is the same, so is the length of the user's history,
  and the controller passes that error on.
\<close>

theorem generateAndSave_provider_failure:
  assumes "provider_failed (provider prompt)"
  shows "generateAndSave provider now st u prompt = (Inl (Error ''LLM provider error''), st) \<and>
         length (list_suggestions (snd (generateAndSave provider now st u prompt)) u) =
           length (list_suggestions st u) \<and>
         (prompt \<noteq> [] \<longrightarrow>
            generateAndSaveSuggestion provider now st (Some u) (Some prompt) =
              (Inl (ServerError (Text ''LLM provider error'')), st))"
proof -
  have g: "generateAndSave provider now st u prompt = (Inl (Error ''LLM provider error''), st)"
    using callLLM_failed [of provider prompt] assms by (simp add: generateAndSave_def)
  then show ?thesis
    by (simp add: generateAndSaveSuggestion_def)
qed

theorem generateAndSave_provider_failure_witness:
  "generateAndSave (\<lambda>p. HttpResponse 500 None) 0 demo_store 1 ''How can I save?'' =
     (Inl (Error ''LLM provider error''), demo_store) \<and>
   generateAndSave (\<lambda>p. NetworkError) 0 demo_store 1 ''How can I save?'' =
     (Inl (Error ''LLM provider error''), demo_store) \<and>
   generateAndSaveSuggestion (\<lambda>p. HttpResponse 200 (Some [None])) 0 demo_store (Some 1)
       (Some ''How can I save?'') =
     (Inl (ServerError (Text ''LLM provider error'')), demo_store)"
  using generateAndSave_provider_failure [of "\<lambda>p. HttpResponse 500 None" "''How can I save?''" 0 demo_store 1]
    generateAndSave_provider_failure [of "\<lambda>p. NetworkError" "''How can I save?''" 0 demo_store 1]
    generateAndSave_provider_failure [of "\<lambda>p. HttpResponse 200 (Some [None])" "''How can I save?''" 0 demo_store 1]
  by (simp add: provider_failed_def)

text \<open>When the call succeeds a row is created, so the history grows by one.\<close>

lemma generateAndSave_success:
  assumes "\<not> provider_failed (provider prompt)"
  shows "length (list_suggestions (snd (generateAndSave provider now st u prompt)) u) =
           length (list_suggestions st u) + 1"
proof -
  obtain r where "callLLM provider prompt = Inr r"
    using callLLM_ok [of provider prompt] assms by blast
  then show ?thesis
    by (simp add: generateAndSave_def list_suggestions_def Let_def)
qed

section \<open>Stored amounts\<close>

lemma createTransaction_cases:
  "(\<exists>e. createTransaction st body = (Inl e, st)) \<or>
   (\<exists>t. createTransaction st body =
          (Inr t, st\<lparr> transactions := transactions st @ [t],
                        next_t_id := next_t_id st + 1 \<rparr>) \<and>
        b_amount body = Some (t_amount t))"
  by (auto simp: createTransaction_def Transaction_create_def Let_def split: option.splits)

lemma updateTransaction_cases:
  "(\<exists>e. updateTransaction st tid body = (Inl e, st)) \<or>
   (\<exists>t old. updateTransaction st tid body =
       (Inr t, st\<lparr> transactions :=
                      map (\<lambda>x. if t_id x = t_id old then t else x) (transactions st) \<rparr>) \<and>
       old \<in> set (transactions st) \<and>
       t_amount t = (case b_amount body of None \<Rightarrow> t_amount old | Some a \<Rightarrow> a))"
proof (cases "b_userId body")
  case None
  then show ?thesis by (simp add: updateTransaction_def)
next
  case (Some u)
  show ?thesis
  proof (cases "find (\<lambda>t. t_id t = tid \<and> t_userId t = u) (transactions st)")
    case None
    with Some show ?thesis by (simp add: updateTransaction_def)
  next
    case (Some old)
    then have "old \<in> set (transactions st)"
      by (auto simp: find_Some_iff)
    with Some \<open>b_userId body = Some u\<close> show ?thesis
      by (auto simp: updateTransaction_def instance_update_def split: option.splits)
  qed
qed

text \<open>Whether a request is accepted does not depend on its amount.\<close>

lemma createTransaction_accepts:
  "(\<exists>t s. createTransaction st (body\<lparr> b_amount := Some a \<rparr>) = (Inr t, s)) \<longleftrightarrow>
   (\<exists>t s. createTransaction st (body\<lparr> b_amount := Some a' \<rparr>) = (Inr t, s))"
  by (auto simp: createTransaction_def Transaction_create_def Let_def split: option.splits)

lemma updateTransaction_accepts:
  "(\<exists>t s. updateTransaction st tid (body\<lparr> b_amount := Some a \<rparr>) = (Inr t, s)) \<longleftrightarrow>
   (\<exists>t s. updateTransaction st tid (body\<lparr> b_amount := Some a' \<rparr>) = (Inr t, s))"
  by (auto simp: updateTransaction_def instance_update_def split: option.splits)

text \<open>
  C5, as the code has it. No handler and no column looks at the sign of an amount:
  whenever \<open>createTransaction\<close> or \<open>updateTransaction\<close> succeeds, the stored
  amount is the amount of the request, whatever its sign, and whether a request is
  accepted does not depend on its amount. So the stored amounts stay non-negative
  only as long as every request's amount is, and a negative amount of an accepted
  request is stored.
\<close>

theorem stored_amount_follows_request:
  "(\<forall>t st'. createTransaction st body = (Inr t, st') \<longrightarrow>
      b_amount body = Some (t_amount t) \<and> transactions st' = transactions st @ [t]) \<and>
   (\<forall>t st' a. updateTransaction st tid body = (Inr t, st') \<and> b_amount body = Some a \<longrightarrow>
      t_amount t = a \<and> t \<in> set (transactions st')) \<and>
   (\<forall>a a'. (\<exists>t s. createTransaction st (body\<lparr> b_amount := Some a \<rparr>) = (Inr t, s)) \<longleftrightarrow>
           (\<exists>t s. createTransaction st (body\<lparr> b_amount := Some a' \<rparr>) = (Inr t, s))) \<and>
   (\<forall>a a'. (\<exists>t s. updateTransaction st tid (body\<lparr> b_amount := Some a \<rparr>) = (Inr t, s)) \<longleftrightarrow>
           (\<exists>t s. updateTransaction st tid (body\<lparr> b_amount := Some a' \<rparr>) = (Inr t, s))) \<and>
   ((\<forall>x \<in> set (transactions st). 0 \<le> t_amount x) \<and> (\<forall>a. b_amount body = Some a \<longrightarrow> 0 \<le> a) \<longrightarrow>
      (\<forall>x \<in> set (transactions (snd (createTransaction st body))). 0 \<le> t_amount x) \<and>
      (\<forall>x \<in> set (transactions (snd (updateTransaction st tid body))). 0 \<le> t_amount x))"
proof -
  have c: "\<forall>t st'. createTransaction st body = (Inr t, st') \<longrightarrow>
      b_amount body = Some (t_amount t) \<and> transactions st' = transactions st @ [t]"
    using createTransaction_cases [of st body] by auto
  have u: "\<forall>t st' a. updateTransaction st tid body = (Inr t, st') \<and> b_amount body = Some a \<longrightarrow>
      t_amount t = a \<and> t \<in> set (transactions st')"
  proof (intro allI impI)
    fix t st' a
    assume h: "updateTransaction st tid body = (Inr t, st') \<and> b_amount body = Some a"
    with updateTransaction_cases [of st tid body] obtain old where
      o: "st' = st\<lparr> transactions :=
             map (\<lambda>x. if t_id x = t_id old then t else x) (transactions st) \<rparr>"
        "old \<in> set (transactions st)" "t_amount t = a"
      by auto
    from o(2) have "(\<lambda>x. if t_id x = t_id old then t else x) old \<in>
        set (map (\<lambda>x. if t_id x = t_id old then t else x) (transactions st))"
      unfolding set_map by (rule imageI)
    with o show "t_amount t = a \<and> t \<in> set (transactions st')" by simp
  qed
  have i: "(\<forall>x \<in> set (transactions (snd (createTransaction st body))). 0 \<le> t_amount x) \<and>
      (\<forall>x \<in> set (transactions (snd (updateTransaction st tid body))). 0 \<le> t_amount x)"
    if "\<forall>x \<in> set (transactions st). 0 \<le> t_amount x"
      and "\<forall>a. b_amount body = Some a \<longrightarrow> 0 \<le> a"
    using createTransaction_cases [of st body] updateTransaction_cases [of st tid body] that
    by (auto split: option.splits)
  have ca: "\<forall>a a'. (\<exists>t s. createTransaction st (body\<lparr> b_amount := Some a \<rparr>) = (Inr t, s)) \<longleftrightarrow>
           (\<exists>t s. createTransaction st (body\<lparr> b_amount := Some a' \<rparr>) = (Inr t, s))"
    using createTransaction_accepts by blast
  have ua: "\<forall>a a'. (\<exists>t s. updateTransaction st tid (body\<lparr> b_amount := Some a \<rparr>) = (Inr t, s)) \<longleftrightarrow>
           (\<exists>t s. updateTransaction st tid (body\<lparr> b_amount := Some a' \<rparr>) = (Inr t, s))"
    using updateTransaction_accepts by blast
  from c u i ca ua show ?thesis by blast
qed

theorem stored_amount_follows_request_witness:
  "(\<exists>t s. createTransaction demo_store (demo_body\<lparr> b_amount := Some (- 20) \<rparr>) = (Inr t, s)) \<and>
   (\<exists>t s. updateTransaction demo_store 4 (demo_body\<lparr> b_amount := Some (- 20) \<rparr>) = (Inr t, s)) \<and>
   map t_amount (transactions (snd (createTransaction demo_store demo_body))) =
     [1000, 150, 40, 500, 5] \<and>
   map t_amount (transactions (snd (updateTransaction demo_store 4 demo_body))) =
     [1000, 150, 40, 5] \<and>
   list_all (\<lambda>x. 0 \<le> t_amount x) (transactions demo_store) \<and>
   b_amount demo_body = Some 5"
proof -
  have ok: "\<exists>t s. createTransaction demo_store (demo_body\<lparr> b_amount := Some 5 \<rparr>) = (Inr t, s)"
    "\<exists>t s. updateTransaction demo_store 4 (demo_body\<lparr> b_amount := Some 5 \<rparr>) = (Inr t, s)"
    by (simp_all add: createTransaction_def updateTransaction_def Transaction_create_def
        instance_update_def demo_body_def demo_store_def kind_of_def Let_def)
  from stored_amount_follows_request [of demo_store demo_body 4] ok
  have "\<exists>t s. createTransaction demo_store (demo_body\<lparr> b_amount := Some (- 20) \<rparr>) = (Inr t, s)"
    "\<exists>t s. updateTransaction demo_store 4 (demo_body\<lparr> b_amount := Some (- 20) \<rparr>) = (Inr t, s)"
    by blast+
  then show ?thesis
    by (simp add: createTransaction_def updateTransaction_def Transaction_create_def
        instance_update_def demo_body_def demo_store_def kind_of_def Let_def)
qed

text \<open>A request of user 2 with the amount -5: \<open>createTransaction\<close> appends a row
  with that amount, \<open>updateTransaction\<close> writes it into row 4 of the same user.\<close>

theorem negative_amount_is_stored:
  "map t_amount (transactions (snd (createTransaction demo_store negative_body))) =
     [1000, 150, 40, 500, - 5] \<and>
   map t_amount (transactions (snd (updateTransaction demo_store 4 negative_body))) =
     [1000, 150, 40, - 5]"
  by (simp add: createTransaction_def updateTransaction_def Transaction_create_def
      instance_update_def negative_body_def demo_store_def kind_of_def Let_def)

section \<open>Sums of whole amounts\<close>

lemma expo_up_nonneg: "0 \<le> expo_up x"
proof (induction x rule: expo_up.induct)
  case (1 x)
  show ?case
  proof (cases "2 \<le> x")
    case True
    with 1 show ?thesis by (simp add: expo_up.simps [of x])
  next
    case False
    then show ?thesis by (simp add: expo_up.simps [of x])
  qed
qed

lemma expo_up_le: "x < 2 ^ Suc n \<Longrightarrow> expo_up x \<le> int n"
proof (induction n arbitrary: x)
  case 0
  then show ?case by (simp add: expo_up.simps [of x])
next
  case (Suc n)
  show ?case
  proof (cases "2 \<le> x")
    case True
    from Suc.prems have "x / 2 < 2 ^ Suc n" by simp
    then have "expo_up (x / 2) \<le> int n" by (rule Suc.IH)
    with True show ?thesis by (simp add: expo_up.simps [of x])
  next
    case False
    then show ?thesis by (simp add: expo_up.simps [of x])
  qed
qed

lemma pow2_nonpos: "e \<le> 0 \<Longrightarrow> pow2 e = 1 / 2 ^ nat (- e)"
  by (simp add: pow2_def)

lemma round_even_int: "round_even (of_int m) = m"
  by (simp add: round_even_def)

lemma to_double_of_int:
  assumes "\<bar>n\<bar> < 2 ^ 53"
  shows "to_double (of_int n) = of_int n"
proof (cases "n = 0")
  case True
  then show ?thesis by (simp add: to_double_def)
next
  case False
  define x :: real where "x = of_int n"
  have ax: "\<bar>x\<bar> = of_int \<bar>n\<bar>"
    by (simp add: x_def)
  from False have "1 \<le> \<bar>n\<bar>"
    by linarith
  then have one: "1 \<le> \<bar>x\<bar>"
    unfolding ax by simp
  from assms have "\<bar>x\<bar> < 2 ^ 53"
    unfolding ax by simp
  then have "\<bar>x\<bar> < 2 ^ Suc 52"
    by simp
  then have up: "expo_up \<bar>x\<bar> \<le> 52"
    using expo_up_le [of "\<bar>x\<bar>" 52] by simp
  define e where "e = ulp_exp x"
  from one up have e: "e \<le> 0" and ee: "e = expo_up \<bar>x\<bar> - 52"
    by (simp_all add: e_def ulp_exp_def)
  define j where "j = nat (- e)"
  have p: "pow2 e = 1 / 2 ^ j"
    using pow2_nonpos [OF e] by (simp add: j_def)
  have "x / pow2 e = of_int (n * 2 ^ j)"
    by (simp add: p x_def)
  then have "round_even (x / pow2 e) = n * 2 ^ j"
    using round_even_int [of "n * 2 ^ j"] by simp
  then have "of_int (round_even (x / pow2 e)) * pow2 e = x"
    by (simp add: p x_def)
  with False show ?thesis
    by (simp add: to_double_def e_def [symmetric] x_def [symmetric])
qed

lemma is_whole_iff: "is_whole x \<longleftrightarrow> (\<exists>n. x = of_int n)"
  unfolding is_whole_def by (metis of_int_floor_cancel)

lemma to_double_whole:
  assumes "is_whole x" "\<bar>x\<bar> < 2 ^ 53"
  shows "to_double x = x"
proof -
  from assms(1) obtain n where n: "x = of_int n"
    unfolding is_whole_iff by blast
  have "\<bar>x\<bar> = of_int \<bar>n\<bar>"
    by (simp add: n)
  with assms(2) have "\<bar>n\<bar> < 2 ^ 53"
    by simp
  then show ?thesis
    unfolding n by (rule to_double_of_int)
qed

lemma is_whole_add: "is_whole x \<Longrightarrow> is_whole y \<Longrightarrow> is_whole (x + y)"
  unfolding is_whole_iff by (metis of_int_add)

lemma is_whole_diff: "is_whole x \<Longrightarrow> is_whole y \<Longrightarrow> is_whole (x - y)"
  unfolding is_whole_iff by (metis of_int_diff)

lemma is_whole_abs: "is_whole x \<Longrightarrow> is_whole \<bar>x\<bar>"
  unfolding is_whole_iff by (metis of_int_abs)

lemma is_whole_0: "is_whole 0"
  by (simp add: is_whole_def)

lemma js_add_whole:
  "is_whole x \<Longrightarrow> is_whole y \<Longrightarrow> \<bar>x + y\<bar> < 2 ^ 53 \<Longrightarrow> js_add x y = x + y"
  unfolding js_add_def by (rule to_double_whole) (simp_all add: is_whole_add)

lemma js_sub_whole:
  "is_whole x \<Longrightarrow> is_whole y \<Longrightarrow> \<bar>x - y\<bar> < 2 ^ 53 \<Longrightarrow> js_sub x y = x - y"
  unfolding js_sub_def by (rule to_double_whole) (simp_all add: is_whole_diff)

lemma is_whole_sum_list: "list_all (\<lambda>t. is_whole (f t)) ts \<Longrightarrow> is_whole (sum_list (map f ts))"
  by (induction ts) (simp_all add: is_whole_0 is_whole_add)

lemma foldl_js_add:
  assumes "is_whole a" "list_all (\<lambda>t. is_whole (f t)) ts"
    and "\<bar>a\<bar> + sum_list (map (\<lambda>t. \<bar>f t\<bar>) ts) < 2 ^ 53"
  shows "foldl (\<lambda>sum t. js_add sum (f t)) a ts = a + sum_list (map f ts)"
  using assms
proof (induction ts arbitrary: a)
  case Nil
  then show ?case by simp
next
  case (Cons t ts)
  have nn: "0 \<le> sum_list (map (\<lambda>t. \<bar>f t\<bar>) ts)"
    by (rule sum_list_nonneg) auto
  from Cons.prems have w: "is_whole (f t)" and ws: "list_all (\<lambda>t. is_whole (f t)) ts"
    by simp_all
  from Cons.prems(3) nn have b: "\<bar>a + f t\<bar> < 2 ^ 53"
    by simp
  have s: "js_add a (f t) = a + f t"
    using Cons.prems(1) w b by (rule js_add_whole)
  have "\<bar>a + f t\<bar> + sum_list (map (\<lambda>t. \<bar>f t\<bar>) ts) < 2 ^ 53"
    using Cons.prems(3) by simp
  with Cons.IH [of "a + f t"] Cons.prems(1) w ws
  have "foldl (\<lambda>sum t. js_add sum (f t)) (a + f t) ts = a + f t + sum_list (map f ts)"
    by (simp add: is_whole_add)
  with s show ?case by simp
qed

lemma abs_sum_list_le: "\<bar>sum_list (map f ts)\<bar> \<le> sum_list (map (\<lambda>t. \<bar>f t :: real\<bar>) ts)"
  by (induction ts) auto

lemma sum_abs_filter_le:
  "sum_list (map (\<lambda>t. \<bar>f t :: real\<bar>) (filter P ts)) \<le> sum_list (map (\<lambda>t. \<bar>f t\<bar>) ts)"
  by (induction ts) auto

lemma sum_abs_split:
  "sum_list (map (\<lambda>t. \<bar>f t :: real\<bar>) (filter P ts)) +
   sum_list (map (\<lambda>t. \<bar>f t\<bar>) (filter (\<lambda>t. \<not> P t) ts)) = sum_list (map (\<lambda>t. \<bar>f t\<bar>) ts)"
  by (induction ts) auto

section \<open>Summaries\<close>

text \<open>The calendar on known days: the epoch, a leap day, a month past December, the
  first instant of July 2025.\<close>

lemma calendar_samples:
  "MakeDay 1970 0 1 = 0"
  "civil 0 = (1970, 0, 1)"
  "civil (MakeDay 2024 1 29) = (2024, 1, 29)"
  "civil (MakeDay 2025 12 1) = (2026, 0, 1)"
  "Date_month_utc (2025, 7) = 1751328000000"
  "iso_month 1751328000000 = Some (2025, 7)"
  by code_simp+

text \<open>The sums of a summary, as JavaScript adds them: from the left, in the order of
  the rows.\<close>

lemma totals_fields:
  "income (totals list) =
     foldl js_add 0 (map t_amount (filter (\<lambda>t. t_type t = Income) list))"
  "expense (totals list) =
     foldl js_add 0 (map t_amount (filter (\<lambda>t. t_type t = Expense) list))"
  "balance (totals list) = js_sub (income (totals list)) (expense (totals list))"
  by (simp_all add: totals_def Let_def foldl_map)

lemma foldl_pair:
  "foldl (\<lambda>(income, expenses) tx.
            if t_type tx = Income then (js_add income (t_amount tx), expenses)
            else (income, js_add expenses (t_amount tx))) (i, e) txs =
   (foldl (\<lambda>sum t. js_add sum (t_amount t)) i (filter (\<lambda>t. t_type t = Income) txs),
    foldl (\<lambda>sum t. js_add sum (t_amount t)) e (filter (\<lambda>t. t_type t = Expense) txs))"
proof (induction txs arbitrary: i e)
  case Nil
  show ?case by simp
next
  case (Cons a txs)
  then show ?case by (cases "t_type a") simp_all
qed

lemma getMonthlySummary_sums:
  "getMonthlySummary tz now st (Some u) =
     Inr \<lparr> m_income = income (totals (findAll_between st u
                (Date_local tz (getFullYear tz now) (getMonth tz now) 1) now)),
           m_expenses = expense (totals (findAll_between st u
                (Date_local tz (getFullYear tz now) (getMonth tz now) 1) now)),
           m_balance = balance (totals (findAll_between st u
                (Date_local tz (getFullYear tz now) (getMonth tz now) 1) now)) \<rparr>"
  by (simp add: getMonthlySummary_def Let_def foldl_pair totals_def)

text \<open>
  C2, as the code has it. \<open>monthlySummary\<close> sums the rows with
  \<open>startDate \<le> date < endDate\<close>: a transaction dated at \<open>startDate\<close> is among them
  (when the window is not empty) and one dated at \<open>endDate\<close> is not. The controller's
  \<open>getMonthlySummary\<close> sums the rows between the start of the month and now with both
  ends kept: a transaction dated at either end is among them.
\<close>

theorem summary_window_ends:
  assumes "t \<in> set (transactions st)" and "t_userId t = u"
    and "startDate = Date_month_utc month"
    and "endDate = setMonth tz startDate (getMonth tz startDate + 1)"
    and "startOfThisMonth = Date_local tz (getFullYear tz now) (getMonth tz now) 1"
  shows "monthlySummary tz st u month = totals (findAll_range st u startDate endDate) \<and>
         (t_date t = startDate \<and> startDate < endDate \<longrightarrow>
            t \<in> set (findAll_range st u startDate endDate)) \<and>
         (t_date t = endDate \<longrightarrow> t \<notin> set (findAll_range st u startDate endDate)) \<and>
         getMonthlySummary tz now st (Some u) =
           Inr \<lparr> m_income = income (totals (findAll_between st u startOfThisMonth now)),
                 m_expenses = expense (totals (findAll_between st u startOfThisMonth now)),
                 m_balance = balance (totals (findAll_between st u startOfThisMonth now)) \<rparr> \<and>
         (t_date t = startOfThisMonth \<and> startOfThisMonth \<le> now \<longrightarrow>
            t \<in> set (findAll_between st u startOfThisMonth now)) \<and>
         (t_date t = now \<and> startOfThisMonth \<le> now \<longrightarrow>
            t \<in> set (findAll_between st u startOfThisMonth now))"
proof -
  have "monthlySummary tz st u month = totals (findAll_range st u startDate endDate)"
    using assms(3,4) by (simp add: monthlySummary_def summaryOver_def Let_def)
  moreover have "getMonthlySummary tz now st (Some u) =
           Inr \<lparr> m_income = income (totals (findAll_between st u startOfThisMonth now)),
                 m_expenses = expense (totals (findAll_between st u startOfThisMonth now)),
                 m_balance = balance (totals (findAll_between st u startOfThisMonth now)) \<rparr>"
    unfolding assms(5) by (rule getMonthlySummary_sums)
  ultimately show ?thesis
    using assms(1,2) by (simp add: findAll_range_def findAll_between_def)
qed

theorem summary_window_ends_witness:
  "transactions demo_store ! 3 \<in>
     set (findAll_range demo_store 2 (utc_date 2025 7 1) (utc_date 2025 8 1)) \<and>
   transactions demo_store ! 2 \<notin>
     set (findAll_range demo_store 1 (utc_date 2025 7 1) (utc_date 2025 8 1)) \<and>
   transactions demo_store ! 1 \<in>
     set (findAll_between demo_store 1 (utc_date 2025 7 1) (utc_date 2025 7 10)) \<and>
   transactions demo_store ! 3 \<in>
     set (findAll_between demo_store 2 (utc_date 2025 7 1) (utc_date 2025 7 10))"
proof -
  have s: "utc_date 2025 7 1 = Date_month_utc (2025, 7)"
    by code_simp
  have e: "utc_date 2025 8 1 =
             setMonth 0 (utc_date 2025 7 1) (getMonth 0 (utc_date 2025 7 1) + 1)"
    by code_simp
  have m: "utc_date 2025 7 1 =
             Date_local 0 (getFullYear 0 (utc_date 2025 7 10)) (getMonth 0 (utc_date 2025 7 10)) 1"
    by code_simp
  have lt: "utc_date 2025 7 1 < utc_date 2025 8 1" "utc_date 2025 7 1 \<le> utc_date 2025 7 10"
    by code_simp+
  have d: "t_date (transactions demo_store ! 3) = utc_date 2025 7 1"
    "t_date (transactions demo_store ! 2) = utc_date 2025 8 1"
    "t_date (transactions demo_store ! 1) = utc_date 2025 7 10"
    by (simp_all add: demo_store_def)
  have u: "t_userId (transactions demo_store ! 3) = 2"
    "t_userId (transactions demo_store ! 2) = 1"
    "t_userId (transactions demo_store ! 1) = 1"
    by (simp_all add: demo_store_def)
  have i: "transactions demo_store ! 3 \<in> set (transactions demo_store)"
    "transactions demo_store ! 2 \<in> set (transactions demo_store)"
    "transactions demo_store ! 1 \<in> set (transactions demo_store)"
    by (simp_all add: demo_store_def)
  from summary_window_ends [OF i(1) u(1) s e m] summary_window_ends [OF i(2) u(2) s e m]
    summary_window_ends [OF i(3) u(3) s e m] lt d
  show ?thesis by simp
qed

text \<open>With the clock at 2025-07-10T00:00:00Z, the window of \<open>getMonthlySummary\<close>
  ends at that instant. Transaction 2 of user 1 is dated exactly then; it is among the
  rows of the query, and its 150 is in the expenses.\<close>

theorem getMonthlySummary_keeps_window_end:
  "t_date (transactions demo_store ! 1) = utc_date 2025 7 10 \<and>
   transactions demo_store ! 1 \<in>
     set (findAll_between demo_store 1
            (Date_local 0 (getFullYear 0 (utc_date 2025 7 10)) (getMonth 0 (utc_date 2025 7 10)) 1)
            (utc_date 2025 7 10)) \<and>
   getMonthlySummary 0 (utc_date 2025 7 10) demo_store (Some 1) =
     Inr \<lparr> m_income = 1000, m_expenses = 150, m_balance = 850 \<rparr>"
  by code_simp

text \<open>Sums of whole amounts are exact.\<close>

lemma whole_amounts_filter: "whole_amounts ts \<Longrightarrow> whole_amounts (filter P ts)"
  unfolding whole_amounts_def
  using sum_abs_filter_le [of t_amount P ts] by (auto simp: list_all_iff)

lemma foldl_js_add_amounts:
  assumes "whole_amounts ts"
  shows "foldl js_add 0 (map t_amount ts) = sum_list (map t_amount ts)"
    and "foldl js_add 0 (map (\<lambda>t. \<bar>t_amount t\<bar>) ts) = sum_list (map (\<lambda>t. \<bar>t_amount t\<bar>) ts)"
proof -
  from assms have w: "list_all (\<lambda>t. is_whole (t_amount t)) ts"
    and b: "sum_list (map (\<lambda>t. \<bar>t_amount t\<bar>) ts) < 2 ^ 53"
    by (simp_all add: whole_amounts_def)
  from w have w': "list_all (\<lambda>t. is_whole \<bar>t_amount t\<bar>) ts"
    by (simp add: list_all_iff is_whole_abs)
  show "foldl js_add 0 (map t_amount ts) = sum_list (map t_amount ts)"
    using foldl_js_add [of 0 t_amount ts] w b by (simp add: foldl_map is_whole_0)
  show "foldl js_add 0 (map (\<lambda>t. \<bar>t_amount t\<bar>) ts) = sum_list (map (\<lambda>t. \<bar>t_amount t\<bar>) ts)"
    using foldl_js_add [of 0 "\<lambda>t. \<bar>t_amount t\<bar>" ts] w' b by (simp add: foldl_map is_whole_0)
qed

lemma totals_exact:
  assumes "whole_amounts ts"
  shows "income (totals ts) = sum_list (map t_amount (filter (\<lambda>t. t_type t = Income) ts))"
    and "expense (totals ts) = sum_list (map t_amount (filter (\<lambda>t. t_type t = Expense) ts))"
    and "balance (totals ts) = income (totals ts) - expense (totals ts)"
    and "is_whole (income (totals ts))" and "is_whole (expense (totals ts))"
    and "\<bar>income (totals ts)\<bar> + \<bar>expense (totals ts)\<bar> \<le>
           sum_list (map (\<lambda>t. \<bar>t_amount t\<bar>) ts)"
proof -
  let ?I = "filter (\<lambda>t. t_type t = Income) ts"
  let ?E = "filter (\<lambda>t. t_type t = Expense) ts"
  from assms have w: "list_all (\<lambda>t. is_whole (t_amount t)) ts"
    and b: "sum_list (map (\<lambda>t. \<bar>t_amount t\<bar>) ts) < 2 ^ 53"
    by (simp_all add: whole_amounts_def)
  show i: "income (totals ts) = sum_list (map t_amount ?I)"
    unfolding totals_fields using whole_amounts_filter [OF assms] by (rule foldl_js_add_amounts)
  show e: "expense (totals ts) = sum_list (map t_amount ?E)"
    unfolding totals_fields using whole_amounts_filter [OF assms] by (rule foldl_js_add_amounts)
  from w have "list_all (\<lambda>t. is_whole (t_amount t)) ?I" "list_all (\<lambda>t. is_whole (t_amount t)) ?E"
    by (simp_all add: list_all_iff)
  then show wi: "is_whole (income (totals ts))" and we: "is_whole (expense (totals ts))"
    unfolding i e by (simp_all add: is_whole_sum_list)
  have ne: "(\<lambda>t. t_type t \<noteq> Income) = (\<lambda>t. t_type t = Expense)"
    by (rule ext) (metis kind.exhaust kind.distinct(1))
  have "sum_list (map (\<lambda>t. \<bar>t_amount t\<bar>) ?I) + sum_list (map (\<lambda>t. \<bar>t_amount t\<bar>) ?E) =
          sum_list (map (\<lambda>t. \<bar>t_amount t\<bar>) ts)"
    using sum_abs_split [of t_amount "\<lambda>t. t_type t = Income" ts] unfolding ne .
  with abs_sum_list_le [of t_amount ?I] abs_sum_list_le [of t_amount ?E]
  show le: "\<bar>income (totals ts)\<bar> + \<bar>expense (totals ts)\<bar> \<le>
           sum_list (map (\<lambda>t. \<bar>t_amount t\<bar>) ts)"
    unfolding i e by linarith
  from le b have "\<bar>income (totals ts) - expense (totals ts)\<bar> < 2 ^ 53"
    by linarith
  with wi we show "balance (totals ts) = income (totals ts) - expense (totals ts)"
    unfolding totals_fields(3) by (rule js_sub_whole)
qed

section \<open>The calendar\<close>

text \<open>
  \<open>civil\<close> inverts \<open>MakeDay\<close>: the first day of a month has the fields it was made
  from, and the days with the year and month of a month are those from its first day
  up to the first day of the next month. The year within the 400 years that \<open>civil\<close>
  computes is checked on the first and the last day of each of the 400 years; it is
  monotone in between.
\<close>

lemma yoe_table_list:
  "list_all (\<lambda>k. yoe_of (year_start k) = k \<and> yoe_of (year_end k) = k) [0..399]"
  by code_simp

lemma yoe_table:
  assumes "0 \<le> k" and "k \<le> 399"
  shows "yoe_of (year_start k) = k" and "yoe_of (year_end k) = k"
  using yoe_table_list assms by (simp_all add: list_all_iff)

lemma sub_div_mono:
  fixes a b :: int
  assumes "a \<le> b"
  shows "a - a div 1460 \<le> b - b div 1460"
proof -
  have "b div 1460 \<le> (a + (b - a) * 1460) div 1460"
    using assms by (intro zdiv_mono1) auto
  also have "\<dots> = a div 1460 + (b - a)"
    by simp
  finally show ?thesis by simp
qed

lemma yoe_mono_low:
  assumes "0 \<le> a" and "a \<le> b" and "b < 146096"
  shows "yoe_of a \<le> yoe_of b"
proof -
  have za: "a div 146096 = 0" and zb: "b div 146096 = 0"
    using assms by simp_all
  have "a div 36524 \<le> b div 36524"
    using assms by (intro zdiv_mono1) auto
  with sub_div_mono [OF assms(2)] show ?thesis
    unfolding yoe_of_def za zb by (intro zdiv_mono1) auto
qed

lemma yoe_last: "yoe_of 146096 = 399" "yoe_of 146095 = 399" "yoe_of 0 = 0"
  by code_simp+

lemma yoe_mono:
  assumes "0 \<le> a" and "a \<le> b" and "b \<le> 146096"
  shows "yoe_of a \<le> yoe_of b"
proof (cases "b = 146096")
  case False
  with assms show ?thesis by (intro yoe_mono_low) auto
next
  case True
  show ?thesis
  proof (cases "a = 146096")
    case True
    with \<open>b = 146096\<close> show ?thesis by simp
  next
    case False
    with assms True have "yoe_of a \<le> yoe_of 146095"
      by (intro yoe_mono_low) auto
    with True show ?thesis by (simp add: yoe_last)
  qed
qed

lemma year_start_step:
  "year_start (k + 1) - year_start k \<le> 366" "365 \<le> year_start (k + 1) - year_start k + 1"
proof -
  have a: "(k + 1) div 4 \<le> k div 4 + 1" "k div 4 \<le> (k + 1) div 4" by linarith+
  have b: "(k + 1) div 100 \<le> k div 100 + 1" "k div 100 \<le> (k + 1) div 100" by linarith+
  have g: "365 * (k + 1) + A' - B' - (365 * k + A - B) = 365 + (A' - A) - (B' - B)"
    for A A' B B' :: int
    by (simp add: algebra_simps)
  show "year_start (k + 1) - year_start k \<le> 366"
    unfolding year_start_def g using a b by simp
  show "365 \<le> year_start (k + 1) - year_start k + 1"
    unfolding year_start_def g using a b by simp
qed

lemma year_end_bounds:
  assumes "0 \<le> k" and "k \<le> 399"
  shows "year_start k \<le> year_end k" and "year_end k \<le> year_start k + 365"
    and "year_end k \<le> 146096" and "0 \<le> year_start k"
proof -
  show "0 \<le> year_start k" using assms unfolding year_start_def by linarith
  show "year_start k \<le> year_end k"
    using year_start_step(2) [of k] by (simp add: year_end_def year_start_def)
  show "year_end k \<le> year_start k + 365"
    using year_start_step(1) [of k] by (simp add: year_end_def year_start_def)
  show "year_end k \<le> 146096"
    using assms unfolding year_end_def year_start_def by (auto; linarith)
qed


lemma yoe_of_unique:
  assumes "0 \<le> k" and "k \<le> 399" and "year_start k \<le> doe" and "doe \<le> year_end k"
  shows "yoe_of doe = k"
proof -
  have "yoe_of (year_start k) \<le> yoe_of doe"
    using assms year_end_bounds [OF assms(1,2)] by (intro yoe_mono) auto
  moreover have "yoe_of doe \<le> yoe_of (year_end k)"
    using assms year_end_bounds [OF assms(1,2)] by (intro yoe_mono) auto
  ultimately show ?thesis
    using yoe_table [OF assms(1,2)] by simp
qed

lemma doy0_values:
  "doy0 0 = 0" "doy0 1 = 31" "doy0 2 = 61" "doy0 3 = 92" "doy0 4 = 122" "doy0 5 = 153"
  "doy0 6 = 184" "doy0 7 = 214" "doy0 8 = 245" "doy0 9 = 275" "doy0 10 = 306" "doy0 11 = 337"
  by (simp_all add: doy0_def)

lemma month_cases:
  fixes mp :: int
  assumes "0 \<le> mp" and "mp \<le> 11"
  shows "mp = 0 \<or> mp = 1 \<or> mp = 2 \<or> mp = 3 \<or> mp = 4 \<or> mp = 5 \<or>
         mp = 6 \<or> mp = 7 \<or> mp = 8 \<or> mp = 9 \<or> mp = 10 \<or> mp = 11"
  using assms by presburger

lemma MakeDay_coords:
  assumes "0 \<le> mn" and "mn \<le> 11"
  shows "MakeDay y mn dt = era_start (march_year y mn) + doy0 ((mn + 10) mod 12) + dt - 1"
proof -
  from assms have "mn div 12 = 0" "mn mod 12 = mn" by simp_all
  then show ?thesis
    by (simp add: MakeDay_def era_start_def year_start_def doy0_def march_year_def Let_def
        algebra_simps)
qed



lemma month_days_pos:
  assumes "0 \<le> mp" and "mp \<le> 11"
  shows "0 < month_days yy mp"
proof -
  have k: "0 \<le> yy mod 400" "yy mod 400 \<le> 399" by simp_all
  have "364 \<le> year_end (yy mod 400) - year_start (yy mod 400) + 1"
    using year_start_step(2) [of "yy mod 400"] k
    by (auto simp: year_end_def year_start_def)
  then show ?thesis
    using month_cases [OF assms] by (auto simp: month_days_def doy0_values)
qed


lemma civil_alt:
  "civil day =
     (let doe = (day + 719468) mod 146097;
          era = (day + 719468) div 146097;
          k = yoe_of doe;
          doy = doe - year_start k;
          mp = (5 * doy + 2) div 153
      in (if (mp + 2) mod 12 < 2 then k + era * 400 + 1 else k + era * 400,
          (mp + 2) mod 12, doy - doy0 mp + 1))"
  unfolding civil_def yoe_of_def year_start_def doy0_def Let_def by (rule refl)

lemma month_of_doy:
  assumes "0 \<le> mp" and "mp \<le> 11" and "doy0 mp \<le> doy"
    and "doy < (if mp = 11 then 367 else doy0 (mp + 1))"
  shows "(5 * doy + 2) div 153 = mp"
proof -
  have "0 \<le> 5 * doy + 2 - 153 * mp \<and> 5 * doy + 2 - 153 * mp < 153"
    using month_cases [OF assms(1,2)] assms(3,4) by (auto simp: doy0_values)
  then show ?thesis
    by (intro int_div_pos_eq [of _ _ _ "5 * doy + 2 - 153 * mp"]) simp_all
qed




lemma civil_of_coords:
  assumes "0 \<le> mp" and "mp \<le> 11" and "0 \<le> j" and "j < month_days yy mp"
  shows "civil (era_start yy + doy0 mp + j) =
           (if (mp + 2) mod 12 < 2 then yy + 1 else yy, (mp + 2) mod 12, j + 1)"
proof -
  define k where "k = yy mod 400"
  define doy where "doy = doy0 mp + j"
  define doe where "doe = year_start k + doy"
  have k: "0 \<le> k" "k \<le> 399" by (simp_all add: k_def)
  note yb = year_end_bounds [OF k]
  have d0: "0 \<le> doy0 mp" "doy0 mp \<le> 337"
    using month_cases [OF assms(1,2)] by (auto simp: doy0_values)
  have ylen: "363 \<le> year_end k - year_start k"
    using year_start_step(2) [of k] k by (auto simp: year_end_def year_start_def)
  have top: "doy \<le> year_end k - year_start k"
    using month_cases [OF assms(1,2)] assms(4) ylen
    by (auto simp: month_days_def doy0_values doy_def k_def)
  have doe: "0 \<le> doe" "doe < 146097" "year_start k \<le> doe" "doe \<le> year_end k"
    using yb top d0 assms(3) by (simp_all add: doe_def doy_def)
  have z: "era_start yy + doy0 mp + j + 719468 = 146097 * (yy div 400) + doe"
    by (simp add: era_start_def doe_def doy_def k_def)
  have zd: "(era_start yy + doy0 mp + j + 719468) div 146097 = yy div 400"
    by (rule int_div_pos_eq [OF z doe(1,2)])
  have zm: "(era_start yy + doy0 mp + j + 719468) mod 146097 = doe"
    by (rule int_mod_pos_eq [OF z doe(1,2)])
  have yk: "yoe_of doe = k"
    by (rule yoe_of_unique [OF k doe(3,4)])
  have dd: "doe - year_start k = doy"
    by (simp add: doe_def)
  have lim: "doy < (if mp = 11 then 367 else doy0 (mp + 1))"
    using assms(4) top yb(2) by (auto simp: month_days_def doy_def)
  have mp: "(5 * doy + 2) div 153 = mp"
    using assms(1,2,3) lim by (intro month_of_doy) (auto simp: doy_def)
  have yy: "k + yy div 400 * 400 = yy"
    by (simp add: k_def)
  have jj: "doy - doy0 mp + 1 = j + 1"
    by (simp add: doy_def)
  show ?thesis
    unfolding civil_alt Let_def zd zm yk dd mp yy jj by (rule refl)
qed


lemma civil_first_day:
  assumes "0 \<le> mn" and "mn \<le> 11"
  shows "civil (MakeDay y mn 1) = (y, mn, 1)"
proof -
  define mp where "mp = (mn + 10) mod 12"
  have mp: "0 \<le> mp" "mp \<le> 11"
    using pos_mod_bound [of 12 "mn + 10"] by (simp_all add: mp_def)
  have bk: "(mp + 2) mod 12 = mn"
    unfolding mp_def using month_cases [OF assms] by auto
  have my: "(if mn < 2 then march_year y mn + 1 else march_year y mn) = y"
    by (simp add: march_year_def)
  have "civil (era_start (march_year y mn) + doy0 mp + 0) =
          (if (mp + 2) mod 12 < 2 then march_year y mn + 1 else march_year y mn,
           (mp + 2) mod 12, 0 + 1)"
    using month_days_pos [OF mp] by (intro civil_of_coords [OF mp]) auto
  then show ?thesis
    unfolding MakeDay_coords [OF assms] bk my mp_def [symmetric] by simp
qed


text \<open>
  The window of \<open>monthlySummary\<close> when the server is at UTC or east of it: from the
  first instant of the month to the first instant of the next one. These are the
  instants whose ISO string starts with the month.
\<close>

lemma day_split:
  fixes r :: int
  assumes "0 \<le> r" and "r < 86400000"
  shows "(k * 86400000 + r) div 86400000 = k" and "(k * 86400000 + r) mod 86400000 = r"
  using assms by simp_all

lemma month_window:
  assumes "0 \<le> tz" and "tz < 1440" and "1 \<le> m" and "m \<le> 12"
  shows "setMonth tz (Date_month_utc (y, m)) (getMonth tz (Date_month_utc (y, m)) + 1) =
           utc_date y (m + 1) 1"
proof -
  from assms have r: "0 \<le> tz * 60000" "tz * 60000 < 86400000"
    by simp_all
  have d: "LocalTime tz (Date_month_utc (y, m)) div msPerDay = MakeDay y (m - 1) 1"
    "LocalTime tz (Date_month_utc (y, m)) mod msPerDay = tz * 60000"
    unfolding Date_month_utc_def LocalTime_def msPerDay_def
    using day_split [OF r, of "MakeDay y (m - 1) 1"] by simp_all
  from assms have c: "civil (MakeDay y (m - 1) 1) = (y, m - 1, 1)"
    by (intro civil_first_day) simp_all
  show ?thesis
    by (simp add: setMonth_def getMonth_def getFullYear_def getDate_def d c UTC_def utc_date_def)
qed

lemma monthlySummary_window:
  assumes "0 \<le> tz" and "tz < 1440" and "1 \<le> m" and "m \<le> 12"
  shows "monthlySummary tz st u (y, m) =
           summaryOver st u (utc_date y m 1) (utc_date y (m + 1) 1)"
  unfolding monthlySummary_def Let_def month_window [OF assms]
  by (simp add: Date_month_utc_def utc_date_def)



section \<open>Windows\<close>









text \<open>
  The window of \<open>monthlySummary\<close> for July 2025 in any time zone of the server:
  \<open>getMonth\<close> and \<open>setMonth\<close> work in local time, so west of UTC, where the first
  instant of the month is still 30 June, the end is 31 July; elsewhere it is 1 August.
\<close>

lemma july_2025_end:
  assumes "- 720 \<le> tz" and "tz \<le> 840"
  shows "setMonth tz (Date_month_utc (2025, 7)) (getMonth tz (Date_month_utc (2025, 7)) + 1) =
           (if tz < 0 then utc_date 2025 7 31 else utc_date 2025 8 1)"
proof -
  have s: "Date_month_utc (2025, 7) = 20270 * 86400000"
    by code_simp
  show ?thesis
  proof (cases "tz < 0")
    case False
    with assms have r: "0 \<le> tz * 60000" "tz * 60000 < 86400000"
      by simp_all
    have d: "LocalTime tz (Date_month_utc (2025, 7)) div msPerDay = 20270"
      "LocalTime tz (Date_month_utc (2025, 7)) mod msPerDay = tz * 60000"
      unfolding s LocalTime_def msPerDay_def using day_split [OF r, of 20270] by simp_all
    have c: "civil 20270 = (2025, 6, 1)"
      by code_simp
    have m: "MakeDay 2025 7 1 * msPerDay = utc_date 2025 8 1"
      by code_simp
    from False show ?thesis
      by (simp add: setMonth_def getMonth_def getFullYear_def getDate_def d c m UTC_def)
  next
    case True
    with assms have r: "0 \<le> 86400000 + tz * 60000" "86400000 + tz * 60000 < 86400000"
      by simp_all
    have "20270 * 86400000 + tz * 60000 = 20269 * 86400000 + (86400000 + tz * 60000)"
      by simp
    then have d: "LocalTime tz (Date_month_utc (2025, 7)) div msPerDay = 20269"
      "LocalTime tz (Date_month_utc (2025, 7)) mod msPerDay = 86400000 + tz * 60000"
      unfolding s LocalTime_def msPerDay_def using day_split [OF r, of 20269] by simp_all
    have c: "civil 20269 = (2025, 5, 30)"
      by code_simp
    have m: "MakeDay 2025 6 30 * msPerDay + 86400000 = utc_date 2025 7 31"
      by code_simp
    from True show ?thesis
      by (simp add: setMonth_def getMonth_def getFullYear_def getDate_def d c UTC_def m [symmetric])
  qed
qed

text \<open>
  C9. The income of a summary is the sum of the amounts of the user's income
  transactions in the window, the expense that of the expense transactions, the balance
  their difference: sums and a difference of doubles, in the order of the rows, which
  are the exact sums and the exact difference when the amounts of the window are whole
  numbers whose absolute values add up to less than 2^53. For the three transactions of
  user 1 in the sample store, July 2025 gives 1000, 150 and 850, for the window from
  1 July to 1 August and for \<open>monthlySummary\<close> in every time zone: the expense of
  1 August is outside the window.
\<close>

theorem monthlySummary_sums:
  "income (summaryOver st u startDate endDate) =
     foldl js_add 0 (map t_amount
       [t \<leftarrow> transactions st. t_userId t = u \<and> startDate \<le> t_date t \<and> t_date t < endDate \<and>
                            t_type t = Income]) \<and>
   expense (summaryOver st u startDate endDate) =
     foldl js_add 0 (map t_amount
       [t \<leftarrow> transactions st. t_userId t = u \<and> startDate \<le> t_date t \<and> t_date t < endDate \<and>
                            t_type t = Expense]) \<and>
   balance (summaryOver st u startDate endDate) =
     js_sub (income (summaryOver st u startDate endDate))
            (expense (summaryOver st u startDate endDate)) \<and>
   (whole_amounts (findAll_range st u startDate endDate) \<longrightarrow>
      income (summaryOver st u startDate endDate) =
        sum_list (map t_amount
          [t \<leftarrow> transactions st. t_userId t = u \<and> startDate \<le> t_date t \<and> t_date t < endDate \<and>
                               t_type t = Income]) \<and>
      expense (summaryOver st u startDate endDate) =
        sum_list (map t_amount
          [t \<leftarrow> transactions st. t_userId t = u \<and> startDate \<le> t_date t \<and> t_date t < endDate \<and>
                               t_type t = Expense]) \<and>
      balance (summaryOver st u startDate endDate) =
        income (summaryOver st u startDate endDate) -
        expense (summaryOver st u startDate endDate)) \<and>
   monthlySummary tz st u month =
     summaryOver st u (Date_month_utc month)
       (setMonth tz (Date_month_utc month) (getMonth tz (Date_month_utc month) + 1)) \<and>
   (0 \<le> tz \<and> tz < 1440 \<and> 1 \<le> m \<and> m \<le> 12 \<longrightarrow>
      monthlySummary tz st u (y, m) =
        summaryOver st u (utc_date y m 1) (utc_date y (m + 1) 1)) \<and>
   summaryOver demo_store 1 (utc_date 2025 7 1) (utc_date 2025 8 1) =
     \<lparr> income = 1000, expense = 150, balance = 850 \<rparr> \<and>
   map t_id (findAll_range demo_store 1 (utc_date 2025 7 1) (utc_date 2025 8 1)) = [1, 2] \<and>
   (\<forall>z. - 720 \<le> z \<and> z \<le> 840 \<longrightarrow>
      monthlySummary z demo_store 1 (2025, 7) =
        \<lparr> income = 1000, expense = 150, balance = 850 \<rparr>)"
proof -
  have rows: "filter (\<lambda>t. t_type t = k) (findAll_range st u startDate endDate) =
      [t \<leftarrow> transactions st. t_userId t = u \<and> startDate \<le> t_date t \<and> t_date t < endDate \<and>
                            t_type t = k]" for k
    unfolding findAll_range_def filter_filter by (rule filter_cong) auto
  have a: "income (summaryOver st u startDate endDate) =
     foldl js_add 0 (map t_amount
       [t \<leftarrow> transactions st. t_userId t = u \<and> startDate \<le> t_date t \<and> t_date t < endDate \<and>
                            t_type t = Income])"
    unfolding summaryOver_def totals_fields rows ..
  have b: "expense (summaryOver st u startDate endDate) =
     foldl js_add 0 (map t_amount
       [t \<leftarrow> transactions st. t_userId t = u \<and> startDate \<le> t_date t \<and> t_date t < endDate \<and>
                            t_type t = Expense])"
    unfolding summaryOver_def totals_fields rows ..
  have c: "balance (summaryOver st u startDate endDate) =
     js_sub (income (summaryOver st u startDate endDate))
            (expense (summaryOver st u startDate endDate))"
    unfolding summaryOver_def by (rule totals_fields(3))
  have x: "income (summaryOver st u startDate endDate) =
        sum_list (map t_amount
          [t \<leftarrow> transactions st. t_userId t = u \<and> startDate \<le> t_date t \<and> t_date t < endDate \<and>
                               t_type t = Income]) \<and>
      expense (summaryOver st u startDate endDate) =
        sum_list (map t_amount
          [t \<leftarrow> transactions st. t_userId t = u \<and> startDate \<le> t_date t \<and> t_date t < endDate \<and>
                               t_type t = Expense]) \<and>
      balance (summaryOver st u startDate endDate) =
        income (summaryOver st u startDate endDate) -
        expense (summaryOver st u startDate endDate)"
    if w: "whole_amounts (findAll_range st u startDate endDate)"
    using totals_exact(1-3) [OF w] unfolding summaryOver_def rows by blast
  have d: "monthlySummary tz st u month =
     summaryOver st u (Date_month_utc month)
       (setMonth tz (Date_month_utc month) (getMonth tz (Date_month_utc month) + 1))"
    by (simp add: monthlySummary_def Let_def)
  have d': "monthlySummary tz st u (y, m) =
        summaryOver st u (utc_date y m 1) (utc_date y (m + 1) 1)"
    if "0 \<le> tz \<and> tz < 1440 \<and> 1 \<le> m \<and> m \<le> 12"
    using that by (intro monthlySummary_window) simp_all
  have e: "summaryOver demo_store 1 (utc_date 2025 7 1) (utc_date 2025 8 1) =
     \<lparr> income = 1000, expense = 150, balance = 850 \<rparr>"
    by code_simp
  have f: "map t_id (findAll_range demo_store 1 (utc_date 2025 7 1) (utc_date 2025 8 1)) = [1, 2]"
    by code_simp
  have g: "monthlySummary z demo_store 1 (2025, 7) =
             \<lparr> income = 1000, expense = 150, balance = 850 \<rparr>"
    if z: "- 720 \<le> z" "z \<le> 840" for z
  proof -
    have w1: "summaryOver demo_store 1 (Date_month_utc (2025, 7)) (utc_date 2025 7 31) =
               \<lparr> income = 1000, expense = 150, balance = 850 \<rparr>"
      by code_simp
    have w2: "summaryOver demo_store 1 (Date_month_utc (2025, 7)) (utc_date 2025 8 1) =
               \<lparr> income = 1000, expense = 150, balance = 850 \<rparr>"
      by code_simp
    show ?thesis
      unfolding monthlySummary_def Let_def july_2025_end [OF z]
      using w1 w2 by simp
  qed
  from a b c x d d' e f g show ?thesis by blast
qed

theorem monthlySummary_sums_witness:
  "(- 720 :: int) \<le> - 300 \<and> (- 300 :: int) \<le> 840 \<and>
   monthlySummary (- 300) demo_store 1 (2025, 7) =
     \<lparr> income = 1000, expense = 150, balance = 850 \<rparr> \<and>
   monthlySummary 0 demo_store 1 (2025, 7) =
     \<lparr> income = 1000, expense = 150, balance = 850 \<rparr> \<and>
   whole_amounts (findAll_range demo_store 1 (utc_date 2025 7 1) (utc_date 2025 8 1)) \<and>
   balance (summaryOver demo_store 1 (utc_date 2025 7 1) (utc_date 2025 8 1)) =
     income (summaryOver demo_store 1 (utc_date 2025 7 1) (utc_date 2025 8 1)) -
     expense (summaryOver demo_store 1 (utc_date 2025 7 1) (utc_date 2025 8 1)) \<and>
   monthlySummary 60 demo_store 1 (2025, 7) =
     summaryOver demo_store 1 (utc_date 2025 7 1) (utc_date 2025 (7 + 1) 1)"
proof -
  note t = monthlySummary_sums [of demo_store 1 "utc_date 2025 7 1" "utc_date 2025 8 1" 60
      "(2025, 7)" 7 2025]
  have w: "whole_amounts (findAll_range demo_store 1 (utc_date 2025 7 1) (utc_date 2025 8 1))"
    by code_simp
  have z: "\<forall>z. - 720 \<le> z \<and> z \<le> 840 \<longrightarrow>
          monthlySummary z demo_store 1 (2025, 7) =
            \<lparr> income = 1000, expense = 150, balance = 850 \<rparr>"
    using t by blast
  have b: "balance (summaryOver demo_store 1 (utc_date 2025 7 1) (utc_date 2025 8 1)) =
     income (summaryOver demo_store 1 (utc_date 2025 7 1) (utc_date 2025 8 1)) -
     expense (summaryOver demo_store 1 (utc_date 2025 7 1) (utc_date 2025 8 1))"
    using t w by blast
  have "0 \<le> (60::int) \<and> (60::int) < 1440 \<and> 1 \<le> (7::int) \<and> (7::int) \<le> 12"
    by simp
  then have m: "monthlySummary 60 demo_store 1 (2025, 7) =
     summaryOver demo_store 1 (utc_date 2025 7 1) (utc_date 2025 (7 + 1) 1)"
    using t by blast
  from z w b m show ?thesis by simp
qed

section \<open>The category breakdown\<close>













section \<open>Deleting a category\<close>




lemma getCategoryName_absent:
  "\<forall>c \<in> set cats. c_id c \<noteq> cid \<Longrightarrow> getCategoryName cats (Some cid) = ''Unknown''"
  by (simp add: getCategoryName_def find_no_match)







end
